theory Spec2Isabelle
  imports Main "HOL-Library.Word" "HOL-Library.Sublist"
begin

unbundle bit_operations_syntax

section \<open>Python values that come out of \<open>res.json()\<close>\<close>

text \<open>
  The handler \<open>analyze_figma\<close> of \<open>src/FastAPI/main.py\<close> works on whatever
  \<open>res.json()\<close> returns: \<open>None\<close>, a bool, an int, a float, a str, a list or a dict.
  A str is a list of characters (one list element per character of the Python str), a
  dict is an association list in insertion order (a dict has every key once; lookup
  takes the first entry of a key), and a float is its 64-bit pattern, of which the code
  only ever asks whether it is zero.
\<close>

datatype json =
    JNull
  | JBool bool
  | JInt int
  | JFloat "64 word"
  | JStr string
  | JArr "json list"
  | JObj "(string \<times> json) list"

text \<open>
  The exceptions the summary code can raise on a value of the wrong shape.
  Subscripting a dict with a slice is a \<open>TypeError\<close> (unhashable slice) up to
  Python 3.11 and a \<open>KeyError\<close> from 3.12 on: \<open>DictSliceError\<close> stands for both.
\<close>

datatype py_error =
    AttributeError
  | TypeError
  | DictSliceError
  | JSONDecodeError
  | RequestException string

definition bind_result :: "py_error + 'a \<Rightarrow> ('a \<Rightarrow> py_error + 'b) \<Rightarrow> py_error + 'b" where
  "bind_result m f = (case m of Inl e \<Rightarrow> Inl e | Inr x \<Rightarrow> f x)"

text \<open>\<open>obj.get(key, default)\<close>: only a dict has the method.\<close>

fun py_get :: "json \<Rightarrow> string \<Rightarrow> json \<Rightarrow> py_error + json" where
  "py_get (JObj kvs) k d = Inr (case map_of kvs k of None \<Rightarrow> d | Some v \<Rightarrow> v)"
| "py_get _ k d = Inl AttributeError"

text \<open>\<open>obj.keys()\<close>, then \<open>list(...)\<close>.\<close>

fun py_keys :: "json \<Rightarrow> py_error + string list" where
  "py_keys (JObj kvs) = Inr (map fst kvs)"
| "py_keys _ = Inl AttributeError"

text \<open>The truth value of an object, as \<open>if x\<close> and \<open>not x\<close> take it.\<close>

fun py_truthy :: "json \<Rightarrow> bool" where
  "py_truthy JNull = False"
| "py_truthy (JBool b) = b"
| "py_truthy (JInt i) = (i \<noteq> 0)"
| "py_truthy (JFloat w) = (w AND 0x7FFFFFFFFFFFFFFF \<noteq> 0)"
| "py_truthy (JStr s) = (s \<noteq> [])"
| "py_truthy (JArr xs) = (xs \<noteq> [])"
| "py_truthy (JObj kvs) = (kvs \<noteq> [])"

text \<open>\<open>obj[:n]\<close>: lists and strings can be sliced.\<close>

fun py_slice :: "nat \<Rightarrow> json \<Rightarrow> py_error + json" where
  "py_slice n (JArr xs) = Inr (JArr (take n xs))"
| "py_slice n (JStr s) = Inr (JStr (take n s))"
| "py_slice n (JObj kvs) = Inl DictSliceError"
| "py_slice n _ = Inl TypeError"

text \<open>
  \<open>for x in obj\<close>: a list gives its elements, a str its characters as one-character
  strings, a dict its keys.
\<close>

fun py_iter :: "json \<Rightarrow> py_error + json list" where
  "py_iter (JArr xs) = Inr xs"
| "py_iter (JStr s) = Inr (map (\<lambda>c. JStr [c]) s)"
| "py_iter (JObj kvs) = Inr (map (\<lambda>kv. JStr (fst kv)) kvs)"
| "py_iter _ = Inl TypeError"

section \<open>The summary extractor\<close>

text \<open>
  The dicts that \<open>extract_figma_summary\<close> builds, one record per dict literal of the
  source. A field that holds \<open>None\<close> holds \<open>JNull\<close>.
\<close>

record frame_info =
  f_name :: json
  f_type :: json
  f_background :: json

record page_info =
  p_name :: json
  p_type :: json
  p_frames :: "frame_info list"

record styles =
  colors :: "string list"
  text_styles :: "string list"

record summary =
  s_name :: json
  s_version :: json
  s_pages :: "page_info list"
  s_styles :: styles

text \<open>The body of the inner loop (source lines 99 to 103).\<close>

definition frame_body :: "json \<Rightarrow> py_error + frame_info" where
  "frame_body child =
     bind_result (py_get child ''name'' JNull) (\<lambda>n.
     bind_result (py_get child ''type'' JNull) (\<lambda>t.
     bind_result (py_get child ''backgroundColor'' JNull) (\<lambda>b.
     Inr \<lparr>f_name = n, f_type = t, f_background = b\<rparr>)))"

text \<open>
  The inner loop: \<open>page_info["frames"].append(frame_info)\<close> for each child, stopping
  at the first exception.
\<close>

fun frames_loop :: "json list \<Rightarrow> frame_info list \<Rightarrow> py_error + frame_info list" where
  "frames_loop [] acc = Inr acc"
| "frames_loop (child # rest) acc =
     (case frame_body child of
        Inl e \<Rightarrow> Inl e
      | Inr fi \<Rightarrow> frames_loop rest (acc @ [fi]))"

text \<open>The body of the outer loop (source lines 91 to 104).\<close>

definition page_body :: "json \<Rightarrow> py_error + page_info" where
  "page_body page =
     bind_result (py_get page ''name'' JNull) (\<lambda>n.
     bind_result (py_get page ''type'' JNull) (\<lambda>t.
     bind_result (py_get page ''children'' (JArr [])) (\<lambda>ch.
     bind_result (py_slice 20 ch) (\<lambda>sl.
     bind_result (py_iter sl) (\<lambda>cs.
     bind_result (frames_loop cs []) (\<lambda>fs.
     Inr \<lparr>p_name = n, p_type = t, p_frames = fs\<rparr>))))))"

fun pages_loop :: "json list \<Rightarrow> page_info list \<Rightarrow> py_error + page_info list" where
  "pages_loop [] acc = Inr acc"
| "pages_loop (page # rest) acc =
     (case page_body page of
        Inl e \<Rightarrow> Inl e
      | Inr pi \<Rightarrow> pages_loop rest (acc @ [pi]))"

text \<open>
  One entry of the styles dict (source lines 110 and 111):
  \<open>list(data.get(k, {}).keys())[:10] if data.get(k) else []\<close>.
\<close>

definition style_keys :: "json \<Rightarrow> string \<Rightarrow> py_error + string list" where
  "style_keys data k =
     bind_result (py_get data k JNull) (\<lambda>c.
     if py_truthy c
     then bind_result (py_get data k (JObj [])) (\<lambda>v.
          bind_result (py_keys v) (\<lambda>ks. Inr (take 10 ks)))
     else Inr [])"

definition extract_figma_summary :: "json \<Rightarrow> py_error + summary" where
  "extract_figma_summary data =
     bind_result (py_get data ''name'' (JStr ''Unknown'')) (\<lambda>n.
     bind_result (py_get data ''version'' (JStr ''Unknown'')) (\<lambda>v.
     bind_result (py_get data ''document'' (JObj [])) (\<lambda>doc.
     bind_result (py_get doc ''children'' (JArr [])) (\<lambda>ch.
     bind_result (py_iter ch) (\<lambda>ps.
     bind_result (pages_loop ps []) (\<lambda>pgs.
     bind_result (style_keys data ''styles'') (\<lambda>cols.
     bind_result (style_keys data ''componentSets'') (\<lambda>ts.
     Inr \<lparr>s_name = n, s_version = v, s_pages = pgs,
          s_styles = \<lparr>colors = cols, text_styles = ts\<rparr>\<rparr>))))))))"

section \<open>The report document\<close>

text \<open>
  The PDF writer is a library outside the repository; the handler uses four of its
  operations. The canvas collects the operations of the page being drawn in
  \<open>cv_code\<close>; \<open>showPage\<close> closes that page, and \<open>save\<close> closes it when it holds
  anything. The bytes of \<open>buffer.getvalue()\<close> are taken to be the closed pages.
\<close>

datatype pdf_op =
    SetFont string int
  | DrawString int int string

record canvas =
  cv_code :: "pdf_op list"
  cv_pages :: "pdf_op list list"

definition Canvas :: canvas where
  "Canvas = \<lparr>cv_code = [], cv_pages = []\<rparr>"

definition setFont :: "string \<Rightarrow> int \<Rightarrow> canvas \<Rightarrow> canvas" where
  "setFont fnt sz pdf = pdf\<lparr>cv_code := cv_code pdf @ [SetFont fnt sz]\<rparr>"

definition drawString :: "int \<Rightarrow> int \<Rightarrow> string \<Rightarrow> canvas \<Rightarrow> canvas" where
  "drawString x y txt pdf = pdf\<lparr>cv_code := cv_code pdf @ [DrawString x y txt]\<rparr>"

definition showPage :: "canvas \<Rightarrow> canvas" where
  "showPage pdf = pdf\<lparr>cv_pages := cv_pages pdf @ [cv_code pdf], cv_code := []\<rparr>"

definition save :: "canvas \<Rightarrow> canvas" where
  "save pdf = (if cv_code pdf \<noteq> [] then showPage pdf else pdf)"

definition newline :: char where
  "newline = CHR 0x0A"

text \<open>
  \<open>analysis_text.split("\n")\<close>: the pieces between the newlines; a text with no
  newline, the empty text too, is one piece.
\<close>

fun split_lines :: "string \<Rightarrow> string list" where
  "split_lines [] = [[]]"
| "split_lines (c # cs) =
     (if c = newline then [] # split_lines cs
      else (case split_lines cs of
              [] \<Rightarrow> [[c]]
            | l # ls \<Rightarrow> (c # l) # ls))"

text \<open>Source lines 167 and 168: \<open>if len(line) > 90: line = line[:87] + "..."\<close>.\<close>

definition truncate_line :: "string \<Rightarrow> string" where
  "truncate_line line = (if length line > 90 then take 87 line @ ''...'' else line)"

text \<open>
  The body of the loop of source lines 160 to 171, on the canvas and \<open>y_position\<close>.
\<close>

definition place_line :: "string \<Rightarrow> canvas \<times> int \<Rightarrow> canvas \<times> int" where
  "place_line line st =
     (let (pdf, y_position) = st;
          (pdf, y_position) =
             (if y_position < 50
              then (setFont ''Helvetica'' 10 (showPage pdf), 800)
              else (pdf, y_position))
      in (drawString 40 y_position (truncate_line line) pdf, y_position - 15))"

fun place_lines :: "string list \<Rightarrow> canvas \<times> int \<Rightarrow> canvas \<times> int" where
  "place_lines [] st = st"
| "place_lines (line # rest) st = place_lines rest (place_line line st)"

definition report_title :: string where
  "report_title = ''Figma Design Analysis Report''"

text \<open>Step 3 of the handler (source lines 149 to 174): the pages of the PDF.\<close>

definition build_pdf :: "string \<Rightarrow> pdf_op list list" where
  "build_pdf analysis_text =
     (let pdf = Canvas;
          pdf = setFont ''Helvetica-Bold'' 16 pdf;
          pdf = drawString 40 800 report_title pdf;
          pdf = setFont ''Helvetica'' 10 pdf;
          (pdf, y_position) = place_lines (split_lines analysis_text) (pdf, 770)
      in cv_pages (save pdf))"

section \<open>The handler of \<open>/analysis\<close>\<close>

text \<open>
  The three module-level settings read with \<open>os.getenv\<close>: a str, or \<open>None\<close> when the
  variable is not set.
\<close>

record env =
  GEMINI_API_KEY :: "string option"
  FIGMA_TOKEN :: "string option"
  FILE_KEY :: "string option"

text \<open>\<open>not v\<close> on such a setting: it holds of \<open>None\<close> and of the empty str.\<close>

definition py_not :: "string option \<Rightarrow> bool" where
  "py_not v = (case v of None \<Rightarrow> True | Some s \<Rightarrow> s = [])"

text \<open>How an f-string prints a setting.\<close>

definition py_format :: "string option \<Rightarrow> string" where
  "py_format v = (case v of None \<Rightarrow> ''None'' | Some s \<Rightarrow> s)"

text \<open>
  The two services the handler calls over the network, and \<open>json.dumps\<close>, are
  parameters. \<open>requests_get url token\<close> answers or raises; \<open>json_body\<close> is \<open>None\<close>
  when the body is not JSON and \<open>res.json()\<close> raises. \<open>generate_content prompt\<close> gives
  the texts of the streamed chunks, or the message of the exception raised while the
  stream is read.
\<close>

record http_response =
  status_code :: int
  json_body :: "json option"

record services =
  requests_get :: "string \<Rightarrow> string option \<Rightarrow> py_error + http_response"
  generate_content :: "string \<Rightarrow> string + string list"
  json_dumps :: "summary \<Rightarrow> string"

datatype call =
    FigmaGet string "string option"
  | GenerateContent string

text \<open>
  What the handler gives back: a dict (sent as JSON), a \<open>Response\<close> with content, media
  type and headers, or an exception that leaves the handler.
\<close>

datatype response =
    JsonResponse json
  | BinaryResponse "pdf_op list list" string "(string \<times> string) list"
  | Raised py_error

definition error_payload :: "string \<Rightarrow> response" where
  "error_payload msg = JsonResponse (JObj [(''error'', JStr msg)])"

text \<open>The f-string of source lines 120 to 136 around the dumped summary.\<close>

definition prompt_of :: "string \<Rightarrow> string" where
  "prompt_of dumped = concat
     [[newline],
      ''    You are a UI/UX design analyst. I will give you a summarized Figma file structure.'', [newline],
      ''    Extract useful insights and provide:'', [newline],
      ''    '', [newline],
      ''    1. **Screens Summary**: List all pages and main frames/screens found'', [newline],
      ''    2. **Design Patterns**: Identify common patterns in naming and structure'', [newline],
      ''    3. **Color Usage**: Analyze color themes if present'', [newline],
      ''    4. **Components**: List repeated components or frames'', [newline],
      ''    5. **UX Observations**: Note any structural issues or good practices'', [newline],
      ''    6. **Recommendations**: Provide 3-5 actionable improvement suggestions'', [newline],
      ''    '', [newline],
      ''    Respond as a structured analysis report with clear sections and bulletpoints.'', [newline],
      ''    Be specific and actionable.'', [newline],
      ''    '', [newline],
      ''    Here is the Figma file summary:'', [newline],
      ''    '', dumped, [newline],
      ''    '']"

text \<open>Source lines 141 to 144: the chunks with a non-empty text, joined.\<close>

fun collect_chunks :: "string list \<Rightarrow> string \<Rightarrow> string" where
  "collect_chunks [] analysis_text = analysis_text"
| "collect_chunks (chunk # rest) analysis_text =
     collect_chunks rest (if chunk \<noteq> [] then analysis_text @ chunk else analysis_text)"

text \<open>
  The handler, with the outbound calls it has issued, in order. An exception of
  \<open>requests.get\<close>, \<open>res.json()\<close> or \<open>extract_figma_summary\<close> leaves the handler;
  an exception of the generation is caught and reported in the payload.
\<close>

definition analyze_figma :: "env \<Rightarrow> services \<Rightarrow> response \<times> call list" where
  "analyze_figma e sv =
     (if py_not (FIGMA_TOKEN e) \<or> py_not (FILE_KEY e) \<or> py_not (GEMINI_API_KEY e)
      then (error_payload ''Missing env vars'', [])
      else
        (let url = ''https://api.figma.com/v1/files/'' @ py_format (FILE_KEY e);
             fetched = [FigmaGet url (FIGMA_TOKEN e)]
         in (case requests_get sv url (FIGMA_TOKEN e) of
               Inl ex \<Rightarrow> (Raised ex, fetched)
             | Inr res \<Rightarrow>
                 (if status_code res \<noteq> 200
                  then (error_payload ''failed to fetch figma'', fetched)
                  else
                    (case json_body res of
                       None \<Rightarrow> (Raised JSONDecodeError, fetched)
                     | Some figma_json \<Rightarrow>
                         (case extract_figma_summary figma_json of
                            Inl ex \<Rightarrow> (Raised ex, fetched)
                          | Inr figma_summary \<Rightarrow>
                              (let prompt = prompt_of (json_dumps sv figma_summary);
                                   called = fetched @ [GenerateContent prompt]
                               in (case generate_content sv prompt of
                                     Inl msg \<Rightarrow>
                                       (error_payload (''Gemini API error: '' @ msg), called)
                                   | Inr chunks \<Rightarrow>
                                       (BinaryResponse (build_pdf (collect_chunks chunks []))
                                          ''application/pdf''
                                          [(''Content-Disposition'',
                                            ''attachment; filename=figma_analysis.pdf'')],
                                        called)))))))))"

section \<open>Notions used to state the properties\<close>

subsection \<open>Reading a design document\<close>

text \<open>
  The entry of a key in a dict, the children of a node, and the first-level children of
  the document root. A value that is not a dict has no entry, a node whose "children" is
  not a list has no children.
\<close>

fun field :: "json \<Rightarrow> string \<Rightarrow> json option" where
  "field (JObj kvs) k = map_of kvs k"
| "field _ k = None"

definition field_or_null :: "json \<Rightarrow> string \<Rightarrow> json" where
  "field_or_null node k = (case field node k of None \<Rightarrow> JNull | Some v \<Rightarrow> v)"

definition node_children :: "json \<Rightarrow> json list" where
  "node_children node = (case field node ''children'' of Some (JArr cs) \<Rightarrow> cs | _ \<Rightarrow> [])"

definition doc_pages :: "json \<Rightarrow> json list" where
  "doc_pages data =
     (case field data ''document'' of Some doc \<Rightarrow> node_children doc | None \<Rightarrow> [])"

text \<open>
  The summary entries as the specification words them: a frame entry holds the name,
  the type and the background colour of a second-level child; a page entry holds the
  name and the type of a first-level child and the entries of its first 20 children.
\<close>

definition frame_entry :: "json \<Rightarrow> frame_info" where
  "frame_entry child =
     \<lparr>f_name = field_or_null child ''name'',
      f_type = field_or_null child ''type'',
      f_background = field_or_null child ''backgroundColor''\<rparr>"

definition page_entry :: "json \<Rightarrow> page_info" where
  "page_entry page =
     \<lparr>p_name = field_or_null page ''name'',
      p_type = field_or_null page ''type'',
      p_frames = map frame_entry (take 20 (node_children page))\<rparr>"

text \<open>
  The shallow view of a document: every second-level child that is a dict keeps only
  its "name", "type" and "backgroundColor" entries, so that its own children, and with
  them every node below the second level, are gone. Nothing else changes.
\<close>

definition recorded_key :: "string \<Rightarrow> bool" where
  "recorded_key k \<longleftrightarrow> k = ''name'' \<or> k = ''type'' \<or> k = ''backgroundColor''"

fun shallow_frame :: "json \<Rightarrow> json" where
  "shallow_frame (JObj kvs) = JObj (filter (\<lambda>kv. recorded_key (fst kv)) kvs)"
| "shallow_frame v = v"

fun map_items :: "(json \<Rightarrow> json) \<Rightarrow> json \<Rightarrow> json" where
  "map_items f (JArr xs) = JArr (map f xs)"
| "map_items f v = v"

fun map_entry :: "string \<Rightarrow> (json \<Rightarrow> json) \<Rightarrow> json \<Rightarrow> json" where
  "map_entry k f (JObj kvs) =
     JObj (map (\<lambda>kv. (fst kv, if fst kv = k then f (snd kv) else snd kv)) kvs)"
| "map_entry k f v = v"

definition shallow_page :: "json \<Rightarrow> json" where
  "shallow_page = map_entry ''children'' (map_items shallow_frame)"

definition shallow_doc :: "json \<Rightarrow> json" where
  "shallow_doc = map_entry ''children'' (map_items shallow_page)"

definition shallow_view :: "json \<Rightarrow> json" where
  "shallow_view = map_entry ''document'' shallow_doc"

text \<open>
  A design document as the specification's data model has it: a dict; under "document",
  when present, a node whose children, when present, are a list of nodes (the pages),
  whose children in turn are a list of nodes (the frames); "styles" and "componentSets",
  when present, mappings. Any of the keys may be missing.
\<close>

definition is_node :: "json \<Rightarrow> bool" where
  "is_node v = (case v of JObj kvs \<Rightarrow> True | _ \<Rightarrow> False)"

definition children_are :: "(json \<Rightarrow> bool) \<Rightarrow> json \<Rightarrow> bool" where
  "children_are P node =
     (is_node node \<and>
      (case field node ''children'' of
         None \<Rightarrow> True
       | Some (JArr xs) \<Rightarrow> list_all P xs
       | Some _ \<Rightarrow> False))"

definition is_mapping_if_present :: "json \<Rightarrow> string \<Rightarrow> bool" where
  "is_mapping_if_present data k =
     (case field data k of None \<Rightarrow> True | Some v \<Rightarrow> is_node v)"

definition is_design_document :: "json \<Rightarrow> bool" where
  "is_design_document data =
     (is_node data \<and>
      (case field data ''document'' of
         None \<Rightarrow> True
       | Some doc \<Rightarrow> children_are (children_are is_node) doc) \<and>
      is_mapping_if_present data ''styles'' \<and>
      is_mapping_if_present data ''componentSets'')"

subsection \<open>Reading a report document\<close>

text \<open>
  What is drawn on a page, in drawing order: the text and the vertical position of each
  \<open>drawString\<close>. The title is the first thing drawn on the first page; the analysis
  lines of a page are what is drawn on it apart from the title.
\<close>

fun drawn :: "pdf_op list \<Rightarrow> (string \<times> int) list" where
  "drawn [] = []"
| "drawn (DrawString x y line # ops) = (line, y) # drawn ops"
| "drawn (SetFont fnt sz # ops) = drawn ops"

definition analysis_pages :: "pdf_op list list \<Rightarrow> (string \<times> int) list list" where
  "analysis_pages doc =
     (case map drawn doc of [] \<Rightarrow> [] | first # later \<Rightarrow> tl first # later)"

definition placed_lines :: "pdf_op list list \<Rightarrow> string list" where
  "placed_lines doc = map fst (concat (analysis_pages doc))"

text \<open>
  The pages of a canvas, the open one last; the canvas on which the loop starts; and the
  three invariants of the loop: every page after the first starts with a line at 800,
  the open page is not empty, and positions go down a page.
\<close>

definition all_pages :: "canvas \<Rightarrow> pdf_op list list" where
  "all_pages pdf = cv_pages pdf @ [cv_code pdf]"

definition title_canvas :: canvas where
  "title_canvas =
     \<lparr>cv_code = [SetFont ''Helvetica-Bold'' 16, DrawString 40 800 report_title,
                 SetFont ''Helvetica'' 10],
      cv_pages = []\<rparr>"

definition starts_at_top :: "pdf_op list \<Rightarrow> bool" where
  "starts_at_top pg =
     (\<exists>line rest. pg = SetFont ''Helvetica'' 10 # DrawString 40 800 line # rest)"

definition later_ok :: "canvas \<Rightarrow> bool" where
  "later_ok pdf \<longleftrightarrow>
     cv_code pdf \<noteq> [] \<and> (\<forall>pg \<in> set (tl (all_pages pdf)). starts_at_top pg)"

definition descending :: "canvas \<times> int \<Rightarrow> bool" where
  "descending st \<longleftrightarrow>
     (\<forall>pg \<in> set (all_pages (fst st)). sorted_wrt (>) (map snd (drawn pg))) \<and>
     (\<forall>p \<in> set (drawn (cv_code (fst st))). snd st < snd p)"

subsection \<open>Example inputs\<close>

text \<open>A document with one page of 25 frames, 12 styles and 11 component sets.\<close>

definition big_document :: json where
  "big_document =
     JObj [(''name'', JStr ''App''),
           (''document'', JObj [(''children'',
              JArr [JObj [(''name'', JStr ''Page 1''), (''type'', JStr ''CANVAS''),
                          (''children'',
                           JArr (replicate 25 (JObj [(''name'', JStr ''Frame'')])))]])]),
           (''styles'', JObj (map (\<lambda>k. (k, JNull))
              [''a'', ''b'', ''c'', ''d'', ''e'', ''f'', ''g'', ''h'', ''i'', ''j'', ''k'', ''l''])),
           (''componentSets'', JObj (map (\<lambda>k. (k, JNull))
              [''m'', ''n'', ''o'', ''p'', ''q'', ''r'', ''s'', ''t'', ''u'', ''v'', ''w'']))]"

definition big_summary :: summary where
  "big_summary =
     \<lparr>s_name = JStr ''App'', s_version = JStr ''Unknown'',
      s_pages =
        [\<lparr>p_name = JStr ''Page 1'', p_type = JStr ''CANVAS'',
          p_frames =
            replicate 20 \<lparr>f_name = JStr ''Frame'', f_type = JNull, f_background = JNull\<rparr>\<rparr>],
      s_styles =
        \<lparr>colors = [''a'', ''b'', ''c'', ''d'', ''e'', ''f'', ''g'', ''h'', ''i'', ''j''],
         text_styles = [''m'', ''n'', ''o'', ''p'', ''q'', ''r'', ''s'', ''t'', ''u'', ''v'']\<rparr>\<rparr>"

text \<open>A document whose only frame has an extra attribute and two levels of nodes below it.\<close>

definition nested_document :: json where
  "nested_document =
     JObj [(''name'', JStr ''App''),
           (''document'', JObj [(''children'',
              JArr [JObj [(''name'', JStr ''Page 1''), (''type'', JStr ''CANVAS''),
                          (''children'',
                           JArr [JObj [(''name'', JStr ''Home''), (''type'', JStr ''FRAME''),
                                       (''backgroundColor'', JObj [(''r'', JInt 1)]),
                                       (''visible'', JBool True),
                                       (''children'',
                                        JArr [JObj [(''name'', JStr ''Button''),
                                                    (''children'',
                                                     JArr [JObj [(''name'', JStr ''Label'')]])]])]])]])])]"

definition nested_summary :: summary where
  "nested_summary =
     \<lparr>s_name = JStr ''App'', s_version = JStr ''Unknown'',
      s_pages =
        [\<lparr>p_name = JStr ''Page 1'', p_type = JStr ''CANVAS'',
          p_frames =
            [\<lparr>f_name = JStr ''Home'', f_type = JStr ''FRAME'',
              f_background = JObj [(''r'', JInt 1)]\<rparr>]\<rparr>],
      s_styles = \<lparr>colors = [], text_styles = []\<rparr>\<rparr>"

text \<open>A document whose only page and only frame have no entry at all.\<close>

definition sparse_document :: json where
  "sparse_document =
     JObj [(''document'', JObj [(''children'', JArr [JObj [(''children'', JArr [JObj []])]])])]"

definition sparse_summary :: summary where
  "sparse_summary =
     \<lparr>s_name = JStr ''Unknown'', s_version = JStr ''Unknown'',
      s_pages =
        [\<lparr>p_name = JNull, p_type = JNull,
          p_frames = [\<lparr>f_name = JNull, f_type = JNull, f_background = JNull\<rparr>]\<rparr>],
      s_styles = \<lparr>colors = [], text_styles = []\<rparr>\<rparr>"

definition empty_summary :: summary where
  "empty_summary =
     \<lparr>s_name = JStr ''Unknown'', s_version = JStr ''Unknown'', s_pages = [],
      s_styles = \<lparr>colors = [], text_styles = []\<rparr>\<rparr>"

text \<open>
  Settings with all three values, and services of which the design-file one answers 404
  or 200 with an empty dict, and the generation one streams three chunks.
\<close>

definition full_env :: env where
  "full_env = \<lparr>GEMINI_API_KEY = Some ''g'', FIGMA_TOKEN = Some ''t'', FILE_KEY = Some ''f''\<rparr>"

definition services_with_status :: "int \<Rightarrow> services" where
  "services_with_status code =
     \<lparr>requests_get = (\<lambda>url token. Inr \<lparr>status_code = code, json_body = Some (JObj [])\<rparr>),
      generate_content = (\<lambda>prompt. Inr [''Hello '', ''World'', ''!'']),
      json_dumps = (\<lambda>s. ''{}'')\<rparr>"

text \<open>A text of one line of 91 characters and one of two.\<close>

definition long_and_short :: string where
  "long_and_short = replicate 91 CHR ''a'' @ [newline] @ ''ok''"

section \<open>The summary extractor: proofs\<close>

lemma bind_result_Inr:
  "bind_result m f = Inr y \<longleftrightarrow> (\<exists>x. m = Inr x \<and> f x = Inr y)"
  by (cases m) (simp_all add: bind_result_def)

lemma bind_result_simps [simp]:
  "bind_result (Inl e) f = Inl e"
  "bind_result (Inr x) f = f x"
  by (simp_all add: bind_result_def)

subsection \<open>Size bounds\<close>

lemma frames_loop_length:
  "frames_loop cs acc = Inr fs \<Longrightarrow> length fs = length acc + length cs"
  by (induction cs arbitrary: acc) (auto split: sum.splits)

lemma py_slice_iter_length:
  "py_slice n ch = Inr sl \<Longrightarrow> py_iter sl = Inr cs \<Longrightarrow> length cs \<le> n"
  by (cases ch) auto

lemma page_body_frames:
  "page_body page = Inr pi \<Longrightarrow> length (p_frames pi) \<le> 20"
  unfolding page_body_def bind_result_Inr
  by (auto dest!: frames_loop_length dest: py_slice_iter_length)

lemma pages_loop_frames:
  "pages_loop ps acc = Inr pgs \<Longrightarrow> \<forall>p \<in> set acc. length (p_frames p) \<le> 20 \<Longrightarrow>
   \<forall>p \<in> set pgs. length (p_frames p) \<le> 20"
proof (induction ps arbitrary: acc)
  case Nil
  then show ?case by simp
next
  case (Cons page rest)
  from Cons.prems(1) obtain pi where pi: "page_body page = Inr pi"
    and rest: "pages_loop rest (acc @ [pi]) = Inr pgs"
    by (auto split: sum.splits)
  have "\<forall>p \<in> set (acc @ [pi]). length (p_frames p) \<le> 20"
    using Cons.prems(2) page_body_frames [OF pi] by simp
  from Cons.IH [OF rest this] show ?case .
qed

lemma style_keys_length: "style_keys data k = Inr ks \<Longrightarrow> length ks \<le> 10"
  by (auto simp: style_keys_def bind_result_Inr split: if_splits)

lemma big_document_summary: "extract_figma_summary big_document = Inr big_summary"
  by (simp add: big_document_def big_summary_def extract_figma_summary_def page_body_def
      frame_body_def style_keys_def eval_nat_numeral)

text \<open>
  C1: whatever JSON value the extractor is given, a summary it produces has at most 20
  frame entries in each page's frame list, at most 10 keys in the colors list and at
  most 10 keys in the text_styles list.
\<close>

theorem summary_bounded:
  assumes "extract_figma_summary data = Inr s"
  shows "(\<forall>p \<in> set (s_pages s). length (p_frames p) \<le> 20)
       \<and> length (colors (s_styles s)) \<le> 10
       \<and> length (text_styles (s_styles s)) \<le> 10"
proof -
  from assms obtain n v pgs ps cols ts where
    pgs: "pages_loop ps [] = Inr pgs" and
    cols: "style_keys data ''styles'' = Inr cols" and
    ts: "style_keys data ''componentSets'' = Inr ts" and
    s: "s = \<lparr>s_name = n, s_version = v, s_pages = pgs,
             s_styles = \<lparr>colors = cols, text_styles = ts\<rparr>\<rparr>"
    unfolding extract_figma_summary_def bind_result_Inr by auto
  have "\<forall>p \<in> set pgs. length (p_frames p) \<le> 20"
    using pages_loop_frames [OF pgs] by simp
  with style_keys_length [OF cols] style_keys_length [OF ts] s show ?thesis
    by simp
qed

text \<open>
  The bounds at work: of the 25 frames, 12 styles and 11 component sets of
  \<open>big_document\<close> the summary keeps 20, 10 and 10.
\<close>

theorem summary_bounded_witness:
  "extract_figma_summary big_document = Inr big_summary
   \<and> length (p_frames (hd (s_pages big_summary))) \<le> 20
   \<and> length (colors (s_styles big_summary)) \<le> 10
   \<and> length (text_styles (s_styles big_summary)) \<le> 10"
proof -
  have "hd (s_pages big_summary) \<in> set (s_pages big_summary)"
    by (simp add: big_summary_def)
  with summary_bounded [OF big_document_summary] big_document_summary
  show ?thesis by blast
qed

subsection \<open>The entries of a summary\<close>

lemma frame_body_entry: "frame_body child = Inr fi \<Longrightarrow> fi = frame_entry child"
  by (cases child)
     (auto simp: frame_body_def frame_entry_def field_or_null_def split: option.splits)

lemma frame_body_JStr [simp]: "frame_body (JStr x) = Inl AttributeError"
  by (simp add: frame_body_def)

lemma frames_loop_entries:
  "frames_loop cs acc = Inr fs \<Longrightarrow> fs = acc @ map frame_entry cs"
proof (induction cs arbitrary: acc)
  case Nil
  then show ?case by simp
next
  case (Cons child rest)
  from Cons.prems obtain fi where fi: "frame_body child = Inr fi"
    and rest: "frames_loop rest (acc @ [fi]) = Inr fs"
    by (auto split: sum.splits)
  from Cons.IH [OF rest] frame_body_entry [OF fi] show ?case by simp
qed

lemma page_body_entry:
  assumes "page_body page = Inr pi"
  shows "pi = page_entry page"
proof -
  from assms obtain kvs where page: "page = JObj kvs"
    by (cases page) (auto simp: page_body_def)
  define ch where "ch = (case map_of kvs ''children'' of None \<Rightarrow> JArr [] | Some v \<Rightarrow> v)"
  from assms page obtain sl cs fs where
    sl: "py_slice 20 ch = Inr sl" and cs: "py_iter sl = Inr cs" and
    fs: "frames_loop cs [] = Inr fs" and
    pi: "pi = \<lparr>p_name = field_or_null page ''name'', p_type = field_or_null page ''type'',
              p_frames = fs\<rparr>"
    by (auto simp: page_body_def bind_result_Inr ch_def field_or_null_def split: option.splits)
  have "fs = map frame_entry (take 20 (node_children page))"
  proof (cases ch)
    case (JArr xs)
    with sl cs fs have "fs = map frame_entry (take 20 xs)"
      by (auto dest: frames_loop_entries)
    moreover have "node_children page = xs"
      using JArr page by (auto simp: node_children_def ch_def split: option.splits)
    ultimately show ?thesis by simp
  next
    case (JStr x)
    with sl cs fs have "x = []" "fs = []"
      by (cases x; auto)+
    moreover have "node_children page = []"
      using JStr page by (auto simp: node_children_def ch_def split: option.splits)
    ultimately show ?thesis by simp
  qed (use sl in auto)
  with pi show ?thesis by (simp add: page_entry_def)
qed

lemma page_body_JStr [simp]: "page_body (JStr x) = Inl AttributeError"
  by (simp add: page_body_def)

lemma pages_loop_entries:
  "pages_loop ps acc = Inr pgs \<Longrightarrow> pgs = acc @ map page_entry ps"
proof (induction ps arbitrary: acc)
  case Nil
  then show ?case by simp
next
  case (Cons page rest)
  from Cons.prems obtain pi where pi: "page_body page = Inr pi"
    and rest: "pages_loop rest (acc @ [pi]) = Inr pgs"
    by (auto split: sum.splits)
  from Cons.IH [OF rest] page_body_entry [OF pi] show ?case by simp
qed

lemma iter_pages_entries:
  assumes "py_iter ch = Inr ps" "pages_loop ps [] = Inr pgs"
  shows "pgs = map page_entry (case ch of JArr xs \<Rightarrow> xs | _ \<Rightarrow> [])"
proof (cases ch)
  case (JArr xs)
  with assms show ?thesis by (auto dest: pages_loop_entries)
next
  case (JStr x)
  with assms show ?thesis by (cases x) auto
next
  case (JObj kvs)
  with assms show ?thesis by (cases kvs) auto
qed (use assms in auto)

lemma extract_pages:
  assumes "extract_figma_summary data = Inr s"
  shows "s_pages s = map page_entry (doc_pages data)"
proof -
  from assms obtain kvs where data: "data = JObj kvs"
    by (cases data) (auto simp: extract_figma_summary_def)
  define doc where "doc = (case map_of kvs ''document'' of None \<Rightarrow> JObj [] | Some v \<Rightarrow> v)"
  from assms data obtain dkvs where d: "doc = JObj dkvs"
    by (cases doc) (auto simp: extract_figma_summary_def doc_def)
  define ch where "ch = (case map_of dkvs ''children'' of None \<Rightarrow> JArr [] | Some v \<Rightarrow> v)"
  from assms data d obtain ps pgs where
    ps: "py_iter ch = Inr ps" and pgs: "pages_loop ps [] = Inr pgs" and s: "s_pages s = pgs"
    by (auto simp: extract_figma_summary_def bind_result_Inr doc_def [symmetric] ch_def)
  have "doc_pages data = (case ch of JArr xs \<Rightarrow> xs | _ \<Rightarrow> [])"
    using data d
    by (auto simp: doc_pages_def node_children_def doc_def ch_def
        split: option.splits json.splits)
  with iter_pages_entries [OF ps pgs] s show ?thesis by simp
qed

lemma extract_top:
  assumes "extract_figma_summary data = Inr s"
  shows "s_name s = (case field data ''name'' of None \<Rightarrow> JStr ''Unknown'' | Some v \<Rightarrow> v)"
    and "s_version s = (case field data ''version'' of None \<Rightarrow> JStr ''Unknown'' | Some v \<Rightarrow> v)"
proof -
  from assms obtain kvs where data: "data = JObj kvs"
    by (cases data) (auto simp: extract_figma_summary_def)
  with assms show
    "s_name s = (case field data ''name'' of None \<Rightarrow> JStr ''Unknown'' | Some v \<Rightarrow> v)"
    "s_version s = (case field data ''version'' of None \<Rightarrow> JStr ''Unknown'' | Some v \<Rightarrow> v)"
    by (auto simp: extract_figma_summary_def bind_result_Inr)
qed

subsection \<open>Nothing below the second level is read\<close>

lemma map_of_filter_key:
  "map_of (filter (\<lambda>kv. P (fst kv)) kvs) k = (if P k then map_of kvs k else None)"
  by (induction kvs) auto

lemma map_of_map_entry:
  "map_of (map (\<lambda>kv. (fst kv, if fst kv = k then f (snd kv) else snd kv)) kvs) k' =
     (if k' = k then map_option f (map_of kvs k') else map_of kvs k')"
  by (induction kvs) auto

lemma frame_body_shallow: "frame_body (shallow_frame child) = frame_body child"
  by (cases child)
     (simp_all add: frame_body_def map_of_filter_key, simp_all add: recorded_key_def)

lemma frames_loop_shallow:
  "frames_loop (map shallow_frame cs) acc = frames_loop cs acc"
  by (induction cs arbitrary: acc) (simp_all add: frame_body_shallow split: sum.splits)

lemma slice_iter_shallow:
  "bind_result (py_slice n (map_items shallow_frame ch))
     (\<lambda>sl. bind_result (py_iter sl) (\<lambda>cs. bind_result (frames_loop cs acc) K))
   = bind_result (py_slice n ch)
     (\<lambda>sl. bind_result (py_iter sl) (\<lambda>cs. bind_result (frames_loop cs acc) K))"
  by (cases ch) (simp_all add: take_map frames_loop_shallow)

lemma page_body_shallow: "page_body (shallow_page page) = page_body page"
proof (cases page)
  case (JObj kvs)
  show ?thesis
  proof (cases "map_of kvs ''children''")
    case None
    with JObj show ?thesis
      by (simp add: shallow_page_def page_body_def map_of_map_entry)
  next
    case (Some v)
    with JObj show ?thesis
      by (simp add: shallow_page_def page_body_def map_of_map_entry slice_iter_shallow)
  qed
qed (simp_all add: shallow_page_def)

lemma pages_loop_shallow:
  "pages_loop (map shallow_page ps) acc = pages_loop ps acc"
  by (induction ps arbitrary: acc) (simp_all add: page_body_shallow split: sum.splits)

lemma iter_pages_shallow:
  "bind_result (py_iter (map_items shallow_page ch))
     (\<lambda>ps. bind_result (pages_loop ps acc) K)
   = bind_result (py_iter ch) (\<lambda>ps. bind_result (pages_loop ps acc) K)"
  by (cases ch) (simp_all add: pages_loop_shallow)

lemma doc_children_shallow:
  "bind_result (py_get (shallow_doc doc) ''children'' (JArr []))
     (\<lambda>ch. bind_result (py_iter ch) (\<lambda>ps. bind_result (pages_loop ps acc) K))
   = bind_result (py_get doc ''children'' (JArr []))
     (\<lambda>ch. bind_result (py_iter ch) (\<lambda>ps. bind_result (pages_loop ps acc) K))"
proof (cases doc)
  case (JObj kvs)
  then show ?thesis
    by (cases "map_of kvs ''children''")
       (simp_all add: shallow_doc_def map_of_map_entry iter_pages_shallow)
qed (simp_all add: shallow_doc_def)

lemma style_keys_shallow:
  "k \<noteq> ''document'' \<Longrightarrow> style_keys (map_entry ''document'' f data) k = style_keys data k"
  by (cases data) (simp_all add: style_keys_def map_of_map_entry)

lemma extract_shallow:
  "extract_figma_summary (shallow_view data) = extract_figma_summary data"
proof (cases data)
  case (JObj kvs)
  have st: "style_keys (shallow_view data) ''styles'' = style_keys data ''styles''"
    "style_keys (shallow_view data) ''componentSets'' = style_keys data ''componentSets''"
    by (simp_all add: shallow_view_def style_keys_shallow)
  show ?thesis
  proof (cases "map_of kvs ''document''")
    case None
    with JObj show ?thesis
      unfolding extract_figma_summary_def st
      by (simp add: shallow_view_def map_of_map_entry)
  next
    case (Some doc)
    with JObj show ?thesis
      unfolding extract_figma_summary_def st
      by (simp add: shallow_view_def map_of_map_entry doc_children_shallow)
  qed
qed (simp_all add: shallow_view_def)

lemma nested_document_summary: "extract_figma_summary nested_document = Inr nested_summary"
  by (simp add: nested_document_def nested_summary_def extract_figma_summary_def
      page_body_def frame_body_def style_keys_def)

lemma nested_document_shallow:
  "shallow_view nested_document =
     JObj [(''name'', JStr ''App''),
           (''document'', JObj [(''children'',
              JArr [JObj [(''name'', JStr ''Page 1''), (''type'', JStr ''CANVAS''),
                          (''children'',
                           JArr [JObj [(''name'', JStr ''Home''), (''type'', JStr ''FRAME''),
                                       (''backgroundColor'', JObj [(''r'', JInt 1)])]])]])])]"
  by (simp add: nested_document_def shallow_view_def shallow_doc_def shallow_page_def
      recorded_key_def)

text \<open>
  C5: the extractor reads two levels below the document root. The pages of a summary
  are the entries of the first-level children, in order; the frames of a page are the
  entries of its first 20 second-level children, in order; a frame entry is the name,
  the type and the background colour of the child. Cutting every second-level child
  down to these three entries, which removes all nodes below the second level, changes
  neither the summary nor the exception of the extractor.
\<close>

theorem summary_two_levels:
  "extract_figma_summary (shallow_view data) = extract_figma_summary data
   \<and> (\<forall>s. extract_figma_summary data = Inr s \<longrightarrow>
          s_pages s = map page_entry (doc_pages data))"
  by (simp add: extract_shallow extract_pages)

text \<open>
  On \<open>nested_document\<close> the shallow view drops the "visible" entry of the frame and
  the two levels of nodes below it, and the summary is the same.
\<close>

theorem summary_two_levels_witness:
  "extract_figma_summary nested_document = Inr nested_summary
   \<and> extract_figma_summary (shallow_view nested_document) = Inr nested_summary
   \<and> shallow_view nested_document \<noteq> nested_document
   \<and> s_pages nested_summary = map page_entry (doc_pages nested_document)"
proof -
  have "shallow_view nested_document \<noteq> nested_document"
    unfolding nested_document_shallow by (simp add: nested_document_def)
  with summary_two_levels [of nested_document] nested_document_summary
  show ?thesis by simp
qed

subsection \<open>Missing keys\<close>

lemma frame_body_ok: "is_node child \<Longrightarrow> \<exists>fi. frame_body child = Inr fi"
  by (cases child) (simp_all add: is_node_def frame_body_def)

lemma frames_loop_ok: "list_all is_node cs \<Longrightarrow> \<exists>fs. frames_loop cs acc = Inr fs"
proof (induction cs arbitrary: acc)
  case Nil
  then show ?case by simp
next
  case (Cons child rest)
  then obtain fi where "frame_body child = Inr fi"
    using frame_body_ok by auto
  with Cons show ?case by simp
qed

lemma list_all_take: "list_all P xs \<Longrightarrow> list_all P (take n xs)"
  by (auto simp: list_all_iff dest: in_set_takeD)

lemma page_body_ok:
  assumes "children_are is_node page"
  shows "\<exists>pi. page_body page = Inr pi"
proof -
  from assms obtain kvs where page: "page = JObj kvs"
    by (cases page) (auto simp: children_are_def is_node_def)
  show ?thesis
  proof (cases "map_of kvs ''children''")
    case None
    with page show ?thesis by (simp add: page_body_def)
  next
    case (Some v)
    with assms page obtain xs where v: "v = JArr xs" and xs: "list_all is_node xs"
      by (cases v) (auto simp: children_are_def)
    from frames_loop_ok [OF list_all_take [OF xs]] obtain fs
      where "frames_loop (take 20 xs) [] = Inr fs" by blast
    with page Some v show ?thesis by (simp add: page_body_def)
  qed
qed

lemma pages_loop_ok:
  "list_all (children_are is_node) ps \<Longrightarrow> \<exists>pgs. pages_loop ps acc = Inr pgs"
proof (induction ps arbitrary: acc)
  case Nil
  then show ?case by simp
next
  case (Cons page rest)
  then obtain pi where "page_body page = Inr pi"
    using page_body_ok by auto
  with Cons show ?case by simp
qed

lemma doc_pages_ok:
  assumes "children_are (children_are is_node) doc"
  shows "\<exists>pgs. bind_result (py_get doc ''children'' (JArr []))
           (\<lambda>ch. bind_result (py_iter ch) (\<lambda>ps. pages_loop ps [])) = Inr pgs"
proof -
  from assms obtain kvs where doc: "doc = JObj kvs"
    by (cases doc) (auto simp: children_are_def is_node_def)
  show ?thesis
  proof (cases "map_of kvs ''children''")
    case None
    with doc show ?thesis by simp
  next
    case (Some v)
    with assms doc obtain xs where v: "v = JArr xs"
      and xs: "list_all (children_are is_node) xs"
      by (cases v) (auto simp: children_are_def)
    from pages_loop_ok [OF xs] obtain pgs where "pages_loop xs [] = Inr pgs" by blast
    with doc Some v show ?thesis by simp
  qed
qed

lemma style_keys_ok:
  assumes "is_mapping_if_present (JObj kvs) k"
  shows "\<exists>ks. style_keys (JObj kvs) k = Inr ks \<and> (map_of kvs k = None \<longrightarrow> ks = [])"
proof (cases "map_of kvs k")
  case None
  then show ?thesis by (simp add: style_keys_def)
next
  case (Some v)
  with assms obtain m where "v = JObj m"
    by (cases v) (auto simp: is_mapping_if_present_def is_node_def)
  with Some show ?thesis by (simp add: style_keys_def)
qed

text \<open>
  A value of another shape under a key that is present is not covered by the defaults:
  a null "document" makes the extractor raise, and so does an input that is no dict.
\<close>

lemma null_document_raises:
  "extract_figma_summary (JObj [(''document'', JNull)]) = Inl AttributeError"
  by (simp add: extract_figma_summary_def)

lemma list_input_raises: "extract_figma_summary (JArr []) = Inl AttributeError"
  by (simp add: extract_figma_summary_def)

text \<open>
  C6: on a design document from which any of "name", "version", "document", "styles"
  and "componentSets" is missing, the extractor raises nothing and returns a summary
  that holds the default for each missing key: "Unknown" for the name and the version,
  no pages, no colors keys, no text_styles keys.
\<close>

theorem missing_keys_default:
  assumes "is_design_document data"
  shows "\<exists>s. extract_figma_summary data = Inr s
           \<and> (field data ''name'' = None \<longrightarrow> s_name s = JStr ''Unknown'')
           \<and> (field data ''version'' = None \<longrightarrow> s_version s = JStr ''Unknown'')
           \<and> (field data ''document'' = None \<longrightarrow> s_pages s = [])
           \<and> (field data ''styles'' = None \<longrightarrow> colors (s_styles s) = [])
           \<and> (field data ''componentSets'' = None \<longrightarrow> text_styles (s_styles s) = [])"
proof -
  from assms obtain kvs where data: "data = JObj kvs"
    by (cases data) (auto simp: is_design_document_def is_node_def)
  define doc where "doc = (case map_of kvs ''document'' of None \<Rightarrow> JObj [] | Some v \<Rightarrow> v)"
  have "children_are (children_are is_node) doc"
    using assms data
    by (auto simp: doc_def is_design_document_def children_are_def is_node_def
        split: option.splits)
  from doc_pages_ok [OF this] obtain pgs where
    pgs: "bind_result (py_get doc ''children'' (JArr []))
           (\<lambda>ch. bind_result (py_iter ch) (\<lambda>ps. pages_loop ps [])) = Inr pgs" by blast
  from assms data style_keys_ok [of kvs "''styles''"] obtain cols where
    cols: "style_keys data ''styles'' = Inr cols"
      "map_of kvs ''styles'' = None \<longrightarrow> cols = []"
    by (auto simp: is_design_document_def)
  from assms data style_keys_ok [of kvs "''componentSets''"] obtain ts where
    ts: "style_keys data ''componentSets'' = Inr ts"
      "map_of kvs ''componentSets'' = None \<longrightarrow> ts = []"
    by (auto simp: is_design_document_def)
  define s where "s =
    \<lparr>s_name = (case map_of kvs ''name'' of None \<Rightarrow> JStr ''Unknown'' | Some v \<Rightarrow> v),
     s_version = (case map_of kvs ''version'' of None \<Rightarrow> JStr ''Unknown'' | Some v \<Rightarrow> v),
     s_pages = pgs, s_styles = \<lparr>colors = cols, text_styles = ts\<rparr>\<rparr>"
  have ex: "extract_figma_summary data = Inr s"
    using pgs cols(1) ts(1) data
    by (auto simp: extract_figma_summary_def s_def doc_def [symmetric] bind_result_Inr)
  have "field data ''document'' = None \<longrightarrow> s_pages s = []"
    using extract_pages [OF ex] by (simp add: doc_pages_def)
  with ex cols(2) ts(2) data show ?thesis
    by (intro exI [of _ s]) (simp add: s_def)
qed

text \<open>The empty dict misses all five keys and gets all five defaults.\<close>

theorem missing_keys_default_witness:
  "is_design_document (JObj []) \<and> extract_figma_summary (JObj []) = Inr empty_summary"
proof -
  have d: "is_design_document (JObj [])"
    by (simp add: is_design_document_def is_node_def is_mapping_if_present_def)
  from missing_keys_default [OF d] obtain s where
    "extract_figma_summary (JObj []) = Inr s"
    "s_name s = JStr ''Unknown''" "s_version s = JStr ''Unknown''" "s_pages s = []"
    "colors (s_styles s) = []" "text_styles (s_styles s) = []"
    by auto
  then have "extract_figma_summary (JObj []) = Inr empty_summary"
    by (cases s, cases "s_styles s") (simp add: empty_summary_def)
  with d show ?thesis by simp
qed

subsection \<open>Missing fields of pages and frames\<close>

lemma sparse_document_summary: "extract_figma_summary sparse_document = Inr sparse_summary"
  by (simp add: sparse_document_def sparse_summary_def extract_figma_summary_def
      page_body_def frame_body_def style_keys_def)

text \<open>
  C10: "Unknown" stands in for a missing name or version of the document only. The
  summary has one page entry for each first-level child and one frame entry for each of
  the first 20 children of a page; where the child has no "name", "type" or
  "backgroundColor", the entry holds null in the field.
\<close>

theorem entry_fields_null:
  assumes "extract_figma_summary data = Inr s"
  shows "(field data ''name'' = None \<longrightarrow> s_name s = JStr ''Unknown'')
    \<and> (field data ''version'' = None \<longrightarrow> s_version s = JStr ''Unknown'')
    \<and> length (s_pages s) = length (doc_pages data)
    \<and> (\<forall>i < length (doc_pages data).
       (field (doc_pages data ! i) ''name'' = None \<longrightarrow> p_name (s_pages s ! i) = JNull) \<and>
       (field (doc_pages data ! i) ''type'' = None \<longrightarrow> p_type (s_pages s ! i) = JNull) \<and>
       length (p_frames (s_pages s ! i)) = min 20 (length (node_children (doc_pages data ! i))) \<and>
       (\<forall>j < length (p_frames (s_pages s ! i)).
          (field (node_children (doc_pages data ! i) ! j) ''name'' = None
             \<longrightarrow> f_name (p_frames (s_pages s ! i) ! j) = JNull) \<and>
          (field (node_children (doc_pages data ! i) ! j) ''type'' = None
             \<longrightarrow> f_type (p_frames (s_pages s ! i) ! j) = JNull) \<and>
          (field (node_children (doc_pages data ! i) ! j) ''backgroundColor'' = None
             \<longrightarrow> f_background (p_frames (s_pages s ! i) ! j) = JNull)))"
  unfolding extract_pages [OF assms] extract_top [OF assms]
  by (simp add: page_entry_def frame_entry_def field_or_null_def min.commute)

text \<open>
  On \<open>sparse_document\<close>, whose page and frame have no entry at all, every field of the
  page entry and of the frame entry is null, and name and version are "Unknown".
\<close>

theorem entry_fields_null_witness:
  "extract_figma_summary sparse_document = Inr sparse_summary
   \<and> s_name sparse_summary = JStr ''Unknown''
   \<and> s_version sparse_summary = JStr ''Unknown''
   \<and> p_name (s_pages sparse_summary ! 0) = JNull
   \<and> p_type (s_pages sparse_summary ! 0) = JNull
   \<and> f_name (p_frames (s_pages sparse_summary ! 0) ! 0) = JNull
   \<and> f_type (p_frames (s_pages sparse_summary ! 0) ! 0) = JNull
   \<and> f_background (p_frames (s_pages sparse_summary ! 0) ! 0) = JNull"
proof -
  have pages: "doc_pages sparse_document = [JObj [(''children'', JArr [JObj []])]]"
    by (simp add: sparse_document_def doc_pages_def node_children_def)
  have fields: "field sparse_document ''name'' = None" "field sparse_document ''version'' = None"
    by (simp_all add: sparse_document_def)
  have frames: "length (p_frames (s_pages sparse_summary ! 0)) = 1"
    by (simp add: sparse_summary_def)
  from entry_fields_null [OF sparse_document_summary] fields pages frames
  have "s_name sparse_summary = JStr ''Unknown''"
    "s_version sparse_summary = JStr ''Unknown''"
    "p_name (s_pages sparse_summary ! 0) = JNull"
    "p_type (s_pages sparse_summary ! 0) = JNull"
    "f_name (p_frames (s_pages sparse_summary ! 0) ! 0) = JNull"
    "f_type (p_frames (s_pages sparse_summary ! 0) ! 0) = JNull"
    "f_background (p_frames (s_pages sparse_summary ! 0) ! 0) = JNull"
    by (simp_all add: node_children_def)
  with sparse_document_summary show ?thesis by simp
qed

section \<open>The report document: proofs\<close>

subsection \<open>One step of the loop\<close>

lemma drawn_append [simp]: "drawn (xs @ ys) = drawn xs @ drawn ys"
  by (induction xs rule: drawn.induct) simp_all

lemma place_line_break:
  "y < 50 \<Longrightarrow> place_line line (pdf, y) =
     (pdf\<lparr>cv_pages := cv_pages pdf @ [cv_code pdf],
          cv_code := [SetFont ''Helvetica'' 10, DrawString 40 800 (truncate_line line)]\<rparr>,
      785)"
  by (simp add: place_line_def setFont_def showPage_def drawString_def)

lemma place_line_same:
  "\<not> y < 50 \<Longrightarrow> place_line line (pdf, y) =
     (pdf\<lparr>cv_code := cv_code pdf @ [DrawString 40 y (truncate_line line)]\<rparr>, y - 15)"
  by (simp add: place_line_def drawString_def)

lemma truncate_line_length: "length (truncate_line l) \<le> 90"
  by (simp add: truncate_line_def)

lemma truncate_line_long:
  "90 < length l \<Longrightarrow> truncate_line l = take 87 l @ ''...'' \<and> length (truncate_line l) = 90"
  by (simp add: truncate_line_def)

lemma truncate_line_short: "length l \<le> 90 \<Longrightarrow> truncate_line l = l"
  by (simp add: truncate_line_def)

lemma split_lines_ne: "split_lines content \<noteq> []"
  by (induction content) (auto split: list.splits)

lemma build_pdf_alt:
  "build_pdf content =
     cv_pages (save (fst (place_lines (split_lines content) (title_canvas, 770))))"
  by (simp add: build_pdf_def title_canvas_def Canvas_def setFont_def drawString_def
      split: prod.splits)

subsection \<open>The drawn texts are the lines, in order\<close>

lemma place_line_texts:
  "map fst (concat (map drawn (all_pages (fst (place_line line st))))) =
   map fst (concat (map drawn (all_pages (fst st)))) @ [truncate_line line]"
  by (cases st, cases "snd st < 50")
     (simp_all add: place_line_break place_line_same all_pages_def)

lemma place_lines_texts:
  "map fst (concat (map drawn (all_pages (fst (place_lines ls st))))) =
   map fst (concat (map drawn (all_pages (fst st)))) @ map truncate_line ls"
  by (induction ls arbitrary: st) (simp_all add: place_line_texts)

lemma save_drawn:
  "concat (map drawn (cv_pages (save pdf))) = concat (map drawn (all_pages pdf))"
  by (simp add: save_def showPage_def all_pages_def)

lemma build_pdf_texts:
  "map fst (concat (map drawn (build_pdf content))) =
     report_title # map truncate_line (split_lines content)"
  by (simp add: build_pdf_alt save_drawn place_lines_texts)
     (simp add: all_pages_def title_canvas_def)

subsection \<open>Where the pages start\<close>

lemma starts_at_top_append: "starts_at_top pg \<Longrightarrow> starts_at_top (pg @ ops)"
  by (auto simp: starts_at_top_def)

lemma starts_at_top_drawn:
  "starts_at_top pg \<Longrightarrow> \<exists>line more. drawn pg = (line, 800) # more"
  by (auto simp: starts_at_top_def)

lemma place_line_later_ok:
  assumes "later_ok pdf"
  shows "later_ok (fst (place_line line (pdf, y)))"
proof (cases "y < 50")
  case True
  with assms show ?thesis
    by (cases "cv_pages pdf")
       (auto simp: place_line_break later_ok_def all_pages_def starts_at_top_def)
next
  case False
  with assms show ?thesis
    by (cases "cv_pages pdf")
       (auto simp: place_line_same later_ok_def all_pages_def starts_at_top_append)
qed

lemma place_lines_later_ok:
  "later_ok (fst st) \<Longrightarrow> later_ok (fst (place_lines ls st))"
proof (induction ls arbitrary: st)
  case Nil
  then show ?case by simp
next
  case (Cons line rest)
  obtain pdf y where st: "st = (pdf, y)" by (cases st)
  with Cons.prems have "later_ok (fst (place_line line st))"
    by (simp add: place_line_later_ok)
  from Cons.IH [OF this] show ?case by simp
qed

lemma place_line_first_page:
  assumes "cv_code pdf \<noteq> []"
  shows "\<exists>ext. hd (all_pages (fst (place_line line (pdf, y)))) = hd (all_pages pdf) @ ext
     \<and> cv_code (fst (place_line line (pdf, y))) \<noteq> []"
proof (cases "y < 50")
  case True
  with assms show ?thesis
    by (cases "cv_pages pdf") (auto simp: place_line_break all_pages_def)
next
  case False
  with assms show ?thesis
    by (cases "cv_pages pdf") (auto simp: place_line_same all_pages_def)
qed

lemma place_lines_first_page:
  "cv_code (fst st) \<noteq> [] \<Longrightarrow>
   \<exists>ext. hd (all_pages (fst (place_lines ls st))) = hd (all_pages (fst st)) @ ext"
proof (induction ls arbitrary: st)
  case Nil
  then show ?case by simp
next
  case (Cons line rest)
  obtain pdf y where st: "st = (pdf, y)" by (cases st)
  with Cons.prems place_line_first_page [of pdf line y] obtain ext where
    ext: "hd (all_pages (fst (place_line line st))) = hd (all_pages (fst st)) @ ext"
    and ne: "cv_code (fst (place_line line st)) \<noteq> []"
    by auto
  from Cons.IH [OF ne] obtain ext' where
    "hd (all_pages (fst (place_lines rest (place_line line st)))) =
       hd (all_pages (fst (place_line line st))) @ ext'" by blast
  with ext show ?case by simp
qed

lemma build_pdf_pages:
  "\<exists>l ls ext later.
     split_lines content = l # ls \<and>
     build_pdf content =
       ([SetFont ''Helvetica-Bold'' 16, DrawString 40 800 report_title,
         SetFont ''Helvetica'' 10, DrawString 40 770 (truncate_line l)] @ ext) # later \<and>
     (\<forall>pg \<in> set later. starts_at_top pg)"
proof -
  obtain l ls where sp: "split_lines content = l # ls"
    using split_lines_ne [of content] by (cases "split_lines content") auto
  define st1 where "st1 = place_line l (title_canvas, 770)"
  define pdf' where "pdf' = fst (place_lines ls st1)"
  have st1: "st1 =
      (title_canvas\<lparr>cv_code := cv_code title_canvas @ [DrawString 40 770 (truncate_line l)]\<rparr>,
       755)"
    by (simp add: st1_def place_line_same)
  have ok1: "later_ok (fst st1)"
    by (simp add: st1 later_ok_def all_pages_def title_canvas_def)
  have ne1: "cv_code (fst st1) \<noteq> []"
    by (simp add: st1)
  have ok: "later_ok pdf'"
    unfolding pdf'_def by (rule place_lines_later_ok [OF ok1])
  from place_lines_first_page [OF ne1, of ls] obtain ext where
    ext: "hd (all_pages pdf') = hd (all_pages (fst st1)) @ ext"
    unfolding pdf'_def by blast
  have b: "build_pdf content = all_pages pdf'"
    using ok by (simp add: build_pdf_alt sp st1_def [symmetric] pdf'_def [symmetric]
        save_def showPage_def all_pages_def later_ok_def)
  have "all_pages pdf' \<noteq> []" by (simp add: all_pages_def)
  then have "all_pages pdf' = hd (all_pages pdf') # tl (all_pages pdf')" by simp
  with ext have "build_pdf content =
      ([SetFont ''Helvetica-Bold'' 16, DrawString 40 800 report_title,
         SetFont ''Helvetica'' 10, DrawString 40 770 (truncate_line l)] @ ext)
      # tl (all_pages pdf')"
    by (simp add: b st1 all_pages_def title_canvas_def)
  moreover have "\<forall>pg \<in> set (tl (all_pages pdf')). starts_at_top pg"
    using ok by (simp add: later_ok_def)
  ultimately show ?thesis using sp by blast
qed

lemma analysis_pages_build_pdf:
  "\<exists>l ls more later.
     split_lines content = l # ls \<and>
     analysis_pages (build_pdf content) = ((truncate_line l, 770) # more) # later \<and>
     map drawn (build_pdf content) =
       ((report_title, 800) # (truncate_line l, 770) # more) # later \<and>
     (\<forall>pg \<in> set later. pg \<noteq> [] \<and> snd (hd pg) = 800)"
proof -
  from build_pdf_pages [of content] obtain l ls ext later where
    sp: "split_lines content = l # ls" and
    b: "build_pdf content =
       ([SetFont ''Helvetica-Bold'' 16, DrawString 40 800 report_title,
         SetFont ''Helvetica'' 10, DrawString 40 770 (truncate_line l)] @ ext) # later" and
    top: "\<forall>pg \<in> set later. starts_at_top pg"
    by (elim exE conjE)
  have "\<forall>pg \<in> set (map drawn later). pg \<noteq> [] \<and> snd (hd pg) = 800"
    using top by (auto dest!: starts_at_top_drawn)
  with sp b show ?thesis
    by (simp add: analysis_pages_def)
qed

lemma placed_lines_build_pdf:
  "placed_lines (build_pdf content) = map truncate_line (split_lines content)"
proof -
  from analysis_pages_build_pdf [of content] obtain l more later where
    a: "analysis_pages (build_pdf content) = ((truncate_line l, 770) # more) # later" and
    d: "map drawn (build_pdf content) =
          ((report_title, 800) # (truncate_line l, 770) # more) # later"
    by (elim exE conjE)
  have "concat (analysis_pages (build_pdf content)) = tl (concat (map drawn (build_pdf content)))"
    by (simp only: a d concat.simps append_Cons list.sel)
  then have "placed_lines (build_pdf content) =
        tl (map fst (concat (map drawn (build_pdf content))))"
    by (simp only: placed_lines_def map_tl)
  then show ?thesis
    by (simp only: build_pdf_texts list.sel)
qed

subsection \<open>Positions go down a page\<close>

lemma place_line_descending:
  assumes "descending (pdf, y)"
  shows "descending (place_line line (pdf, y))"
proof (cases "y < 50")
  case True
  with assms show ?thesis
    by (auto simp: place_line_break descending_def all_pages_def)
next
  case False
  with assms show ?thesis
    by (auto simp: place_line_same descending_def all_pages_def sorted_wrt_append)
qed

lemma place_lines_descending:
  "descending st \<Longrightarrow> descending (place_lines ls st)"
proof (induction ls arbitrary: st)
  case Nil
  then show ?case by simp
next
  case (Cons line rest)
  obtain pdf y where st: "st = (pdf, y)" by (cases st)
  with Cons.prems have "descending (place_line line st)"
    by (simp add: place_line_descending)
  from Cons.IH [OF this] show ?case by simp
qed

lemma build_pdf_descending:
  "\<forall>pg \<in> set (build_pdf content). sorted_wrt (>) (map snd (drawn pg))"
proof -
  have "descending (title_canvas, 770)"
    by (simp add: descending_def all_pages_def title_canvas_def)
  from place_lines_descending [OF this, of "split_lines content"]
  have "\<forall>pg \<in> set (all_pages (fst (place_lines (split_lines content) (title_canvas, 770)))).
          sorted_wrt (>) (map snd (drawn pg))"
    by (simp add: descending_def)
  then show ?thesis
    by (auto simp: build_pdf_alt save_def showPage_def all_pages_def)
qed

subsection \<open>The claims about the report document\<close>

lemma split_long_and_short:
  "split_lines long_and_short = [replicate 91 CHR ''a'', ''ok'']"
  by code_simp

lemma build_pdf_first_page:
  "build_pdf content \<noteq> [] \<and> hd (build_pdf content) \<in> set (build_pdf content)
   \<and> drawn (hd (build_pdf content)) \<noteq> []
   \<and> hd (drawn (hd (build_pdf content))) \<in> set (drawn (hd (build_pdf content)))"
proof -
  from build_pdf_pages [of content] obtain page later where
    "build_pdf content =
       ([SetFont ''Helvetica-Bold'' 16, DrawString 40 800 report_title] @ page) # later"
    by auto
  then show ?thesis by simp
qed

text \<open>
  C2, as the code has it: the paginator places as many lines as splitting the text on
  newlines gives; on every page the positions go down in drawing order, so that the
  placed lines in page-then-position order are the drawn ones in drawing order; and
  these are the lines of the text in order, each one cut by the width rule. Where no
  line is longer than 90 characters they are the lines of the text themselves.
\<close>

theorem paginator_keeps_lines:
  "length (placed_lines (build_pdf content)) = length (split_lines content)
   \<and> placed_lines (build_pdf content) = map truncate_line (split_lines content)
   \<and> (\<forall>pg \<in> set (build_pdf content). sorted_wrt (>) (map snd (drawn pg)))
   \<and> ((\<forall>l \<in> set (split_lines content). length l \<le> 90)
        \<longrightarrow> placed_lines (build_pdf content) = split_lines content)"
  by (simp add: placed_lines_build_pdf build_pdf_descending truncate_line_short map_idI)

text \<open>A text of two short lines is placed as it is, on one page, from the top down.\<close>

theorem paginator_keeps_lines_witness:
  "placed_lines (build_pdf [CHR ''a'', CHR ''b'', newline, CHR ''c'']) = [''ab'', ''c'']
   \<and> sorted_wrt (>) (map snd (drawn (hd (build_pdf [CHR ''a'', CHR ''b'', newline, CHR ''c'']))))"
proof -
  have sp: "split_lines [CHR ''a'', CHR ''b'', newline, CHR ''c''] = [''ab'', ''c'']"
    by (simp add: newline_def)
  from paginator_keeps_lines [of "[CHR ''a'', CHR ''b'', newline, CHR ''c'']"]
    build_pdf_first_page [of "[CHR ''a'', CHR ''b'', newline, CHR ''c'']"]
  show ?thesis
    unfolding sp by (simp add: truncate_line_def)
qed

text \<open>
  Exact reconstruction fails: a line of 91 characters is not placed as it is, so the
  placed lines of this text are not its original line sequence.
\<close>

theorem paginator_exact_counterexample:
  "placed_lines (build_pdf (replicate 91 CHR ''a'')) \<noteq> split_lines (replicate 91 CHR ''a'')"
  by code_simp

text \<open>
  C3: the placed form of a line longer than 90 characters has at most 93 characters and
  ends with "..."; a line of at most 90 characters is placed unchanged.
\<close>

theorem long_lines_truncated:
  assumes "i < length (split_lines content)"
  shows "(90 < length (split_lines content ! i) \<longrightarrow>
            length (placed_lines (build_pdf content) ! i) \<le> 93
            \<and> suffix ''...'' (placed_lines (build_pdf content) ! i))
       \<and> (length (split_lines content ! i) \<le> 90 \<longrightarrow>
            placed_lines (build_pdf content) ! i = split_lines content ! i)"
  using assms
  by (auto simp: placed_lines_build_pdf truncate_line_def suffix_def)

text \<open>Both cases on \<open>long_and_short\<close>: its first line has 91 characters, its second two.\<close>

theorem long_lines_truncated_witness:
  "length (placed_lines (build_pdf long_and_short) ! 0) \<le> 93
   \<and> suffix ''...'' (placed_lines (build_pdf long_and_short) ! 0)
   \<and> placed_lines (build_pdf long_and_short) ! 1 = ''ok''"
  using long_lines_truncated [of 0 long_and_short] long_lines_truncated [of 1 long_and_short]
  unfolding split_long_and_short by simp

text \<open>
  C9: no text drawn into the document, the title included, is longer than 90
  characters; a line longer than 90 characters is drawn as its first 87 characters
  followed by "...", which are 90 characters.
\<close>

theorem drawn_lines_fit:
  "(\<forall>pg \<in> set (build_pdf content). \<forall>p \<in> set (drawn pg). length (fst p) \<le> 90)
   \<and> (\<forall>i < length (split_lines content). 90 < length (split_lines content ! i) \<longrightarrow>
         placed_lines (build_pdf content) ! i = take 87 (split_lines content ! i) @ ''...''
         \<and> length (placed_lines (build_pdf content) ! i) = 90)"
proof -
  have "\<forall>line \<in> set (map fst (concat (map drawn (build_pdf content)))). length line \<le> 90"
    unfolding build_pdf_texts
    by (auto simp: truncate_line_length report_title_def)
  then have "\<forall>pg \<in> set (build_pdf content). \<forall>p \<in> set (drawn pg). length (fst p) \<le> 90"
    by auto
  then show ?thesis
    by (simp add: placed_lines_build_pdf truncate_line_long)
qed

text \<open>The line of 91 characters is drawn as 87 of them and "...".\<close>

theorem drawn_lines_fit_witness:
  "placed_lines (build_pdf long_and_short) ! 0 = replicate 87 CHR ''a'' @ ''...''
   \<and> length (placed_lines (build_pdf long_and_short) ! 0) = 90
   \<and> length (fst (hd (drawn (hd (build_pdf long_and_short))))) \<le> 90"
proof -
  note fit = drawn_lines_fit [of long_and_short]
  have "hd (build_pdf long_and_short) \<in> set (build_pdf long_and_short)"
    "hd (drawn (hd (build_pdf long_and_short))) \<in> set (drawn (hd (build_pdf long_and_short)))"
    using build_pdf_first_page [of long_and_short] by simp_all
  with fit have "length (fst (hd (drawn (hd (build_pdf long_and_short))))) \<le> 90"
    by auto
  moreover from fit have
    "placed_lines (build_pdf long_and_short) ! 0 = replicate 87 CHR ''a'' @ ''...''
     \<and> length (placed_lines (build_pdf long_and_short) ! 0) = 90"
    unfolding split_long_and_short by simp
  ultimately show ?thesis by simp
qed




section \<open>The handler of \<open>/analysis\<close>: proofs\<close>

text \<open>
  With all settings present, a fetch that answers 200 and a generation that streams
  "Hello ", "World" and "!", the handler issues both calls and answers with a PDF of the
  joined text.
\<close>

lemma analysis_success_example:
  "analyze_figma full_env (services_with_status 200) =
     (BinaryResponse (build_pdf ''Hello World!'') ''application/pdf''
        [(''Content-Disposition'', ''attachment; filename=figma_analysis.pdf'')],
      [FigmaGet ''https://api.figma.com/v1/files/f'' (Some ''t''),
       GenerateContent (prompt_of ''{}'')])"
  by (simp add: analyze_figma_def full_env_def services_with_status_def py_not_def
      py_format_def extract_figma_summary_def style_keys_def)

text \<open>
  C7: when the design-file fetch, which the handler issues once the three settings are
  present, answers with a status other than 200, the handler returns the payload
  {"error": "failed to fetch figma"}; the fetch is the only outbound call, so the
  generation service is not invoked, and the response is not a binary document.
\<close>

theorem fetch_failure_stops:
  assumes "\<not> py_not (FIGMA_TOKEN e)" "\<not> py_not (FILE_KEY e)" "\<not> py_not (GEMINI_API_KEY e)"
    and "requests_get sv (''https://api.figma.com/v1/files/'' @ py_format (FILE_KEY e))
           (FIGMA_TOKEN e) = Inr res"
    and "status_code res \<noteq> 200"
  shows "fst (analyze_figma e sv) = JsonResponse (JObj [(''error'', JStr ''failed to fetch figma'')])
       \<and> snd (analyze_figma e sv) =
           [FigmaGet (''https://api.figma.com/v1/files/'' @ py_format (FILE_KEY e)) (FIGMA_TOKEN e)]
       \<and> (\<forall>prompt. GenerateContent prompt \<notin> set (snd (analyze_figma e sv)))
       \<and> (\<forall>content media headers.
             fst (analyze_figma e sv) \<noteq> BinaryResponse content media headers)"
  using assms by (simp add: analyze_figma_def error_payload_def Let_def)

text \<open>The same services as in the example above, answering 404 instead of 200.\<close>

theorem fetch_failure_stops_witness:
  "analyze_figma full_env (services_with_status 404) =
     (JsonResponse (JObj [(''error'', JStr ''failed to fetch figma'')]),
      [FigmaGet ''https://api.figma.com/v1/files/f'' (Some ''t'')])"
  using fetch_failure_stops [of full_env "services_with_status 404"
      "\<lparr>status_code = 404, json_body = Some (JObj [])\<rparr>"]
  by (simp add: full_env_def services_with_status_def py_not_def py_format_def prod_eq_iff)

text \<open>
  C8: when any of the three settings is absent (or empty, which \<open>not\<close> treats alike),
  the handler returns the payload {"error": "Missing env vars"} and has issued no
  outbound call, neither the fetch nor the generation.
\<close>

theorem missing_settings_no_calls:
  assumes "FIGMA_TOKEN e \<in> {None, Some []} \<or> FILE_KEY e \<in> {None, Some []}
           \<or> GEMINI_API_KEY e \<in> {None, Some []}"
  shows "analyze_figma e sv = (JsonResponse (JObj [(''error'', JStr ''Missing env vars'')]), [])"
  using assms by (auto simp: analyze_figma_def error_payload_def py_not_def)

text \<open>Without the design-file token, services that would answer are not called.\<close>

theorem missing_settings_no_calls_witness:
  "analyze_figma (full_env\<lparr>FIGMA_TOKEN := None\<rparr>) (services_with_status 200) =
     (JsonResponse (JObj [(''error'', JStr ''Missing env vars'')]), [])"
  using missing_settings_no_calls [of "full_env\<lparr>FIGMA_TOKEN := None\<rparr>" "services_with_status 200"]
  by simp

end
